theory Spec2Isabelle
  imports Complex_Main "HOL-Library.Product_Lexorder" "HOL-Library.List_Lexorder"
begin

section \<open>Strings, thrown errors and JSON values\<close>

text \<open>
  A JavaScript string is a sequence of UTF-16 code units; a code unit is kept as the
  natural number below 65536 it stands for. \<open>utf16\<close> turns an ASCII literal of the source
  into such a string.
\<close>

type_synonym js_string = "nat list"

definition utf16 :: "string \<Rightarrow> js_string" where
  "utf16 s = map of_char s"

text \<open>A thrown \<open>Error\<close> object; the handlers only ever read \<open>err.message\<close>.\<close>

datatype error = Error (message: js_string)

text \<open>
  A field of the parsed JSON request body. \<open>JOther\<close> stands for every value that is neither
  a string nor \<open>null\<close> nor absent (a number, a boolean, an array, an object).
\<close>

datatype js_value = Undefined | Null | JString js_string | JOther

text \<open>\<open>Array.prototype.join\<close> on an array of strings.\<close>

fun join :: "js_string \<Rightarrow> js_string list \<Rightarrow> js_string" where
  "join sep [] = []"
| "join sep [x] = x"
| "join sep (x # y # ys) = x @ sep @ join sep (y # ys)"

text \<open>
  \<open>String.prototype.trim\<close> removes leading and trailing code units that are ECMAScript
  white space or line terminators: TAB, LF, VT, FF, CR, SP, NBSP, U+1680, U+2000..U+200A,
  U+2028, U+2029, U+202F, U+205F, U+3000 and U+FEFF.
\<close>

definition is_white_space :: "nat \<Rightarrow> bool" where
  "is_white_space c \<longleftrightarrow>
     c = 0x09 \<or> c = 0x0A \<or> c = 0x0B \<or> c = 0x0C \<or> c = 0x0D \<or> c = 0x20 \<or> c = 0xA0 \<or>
     c = 0x1680 \<or> (0x2000 \<le> c \<and> c \<le> 0x200A) \<or> c = 0x2028 \<or> c = 0x2029 \<or>
     c = 0x202F \<or> c = 0x205F \<or> c = 0x3000 \<or> c = 0xFEFF"

definition trim :: "js_string \<Rightarrow> js_string" where
  "trim s = rev (dropWhile is_white_space (rev (dropWhile is_white_space s)))"

section \<open>The taxonomy store\<close>

text \<open>
  Modelled from the spec: the declaration of table \<open>tariff_codes\<close>, which is not among
  the sources. The columns are the ones the queries name. \<open>htsno\<close> and \<open>embedding\<close> may
  be \<open>NULL\<close> (the queries test them); \<open>descript\<close> and \<open>indent\<close> never are, as in the
  spec's data model; \<open>general\<close> and \<open>special\<close> are only ever copied. The components of
  a stored vector are real numbers.
\<close>

record tariff_code =
  row_id :: nat
  htsno :: "js_string option"
  descript :: js_string
  general :: "js_string option"
  special :: "js_string option"
  indent :: int
  embedding :: "real list option"

text \<open>
  What \<open>hf.featureExtraction\<close> resolves to: an array of numbers, or an array of arrays of
  numbers. Both scripts flatten it with
  \<open>Array.isArray(e[0]) ? e[0] : e\<close>; on an empty outer array \<open>e[0]\<close> is \<open>undefined\<close> and
  the (empty) array itself is kept.
\<close>

datatype tensor = Flat "real list" | Nested "real list list"

fun flatEmbedding :: "tensor \<Rightarrow> real list" where
  "flatEmbedding (Flat v) = v"
| "flatEmbedding (Nested []) = []"
| "flatEmbedding (Nested (v # _)) = v"

section \<open>The embedding backfill job\<close>

text \<open>
  The job's two collaborators. The embedding service is asked once per row, and the
  store once per statement; either may fail at any call, so each is a function of the
  number of calls made before (and, for the service, of the text sent).
\<close>

record job_services =
  hf_featureExtraction :: "nat \<Rightarrow> js_string \<Rightarrow> error + tensor"
  pool_query_error :: "nat \<Rightarrow> error option"

datatype log_line =
    LogFound nat
  | LogBatch nat nat nat
  | LogRowOk nat nat int js_string js_string
  | LogRowFailed js_string
  | LogDone nat
  | LogFatal error

record job_state =
  table :: "tariff_code list"
  processed :: nat
  batchNumber :: nat
  queries :: nat
  hf_calls :: nat
  updates :: nat
  console :: "log_line list"
  pool_ended :: bool

definition BATCH_SIZE :: nat where
  "BATCH_SIZE = 10"

text \<open>\<open>SELECT COUNT(*) FROM tariff_codes WHERE indent <= 2 AND embedding IS NULL\<close>\<close>

definition count_needing :: "tariff_code list \<Rightarrow> nat" where
  "count_needing rows = length (filter (\<lambda>r. indent r \<le> 2 \<and> embedding r = None) rows)"

text \<open>
  The batch query: the distinct triples \<open>(htsno, descript, indent)\<close> of the rows with
  \<open>indent <= 2\<close>, no embedding and a code, in ascending order, at most \<open>LIMIT\<close> of them.
  Text is compared code unit by code unit (the store's collation is not in the source).
\<close>

type_synonym batch_row = "js_string \<times> js_string \<times> int"

definition select_batch :: "nat \<Rightarrow> tariff_code list \<Rightarrow> batch_row list" where
  "select_batch n rows =
     take n (sort (remdups (map (\<lambda>r. (the (htsno r), descript r, indent r))
       (filter (\<lambda>r. indent r \<le> 2 \<and> embedding r = None \<and> htsno r \<noteq> None) rows))))"

text \<open>\<open>UPDATE tariff_codes SET embedding = $1 WHERE htsno = $2\<close>\<close>

definition update_embedding :: "real list \<Rightarrow> js_string \<Rightarrow> tariff_code list \<Rightarrow> tariff_code list" where
  "update_embedding v h rows =
     map (\<lambda>r. if htsno r = Some h then r\<lparr>embedding := Some v\<rparr> else r) rows"

text \<open>The text sent to the embedding service: terser for chapter-level rows.\<close>

definition textToEmbed :: "batch_row \<Rightarrow> js_string" where
  "textToEmbed row =
     (case row of (h, d, i) \<Rightarrow>
        if i = 0 then utf16 ''HTS '' @ h @ utf16 '': '' @ d
        else utf16 ''HTS Code '' @ h @ utf16 '' - '' @ d)"

text \<open>
  The body of the \<open>for\<close> loop, with its \<open>try\<close>/\<open>catch\<close>: a rejected embedding call or a
  rejected \<open>UPDATE\<close> is logged and nothing else happens for the row; \<open>processed\<close> grows
  only after the \<open>UPDATE\<close> went through.
\<close>

definition process_row :: "job_services \<Rightarrow> nat \<Rightarrow> batch_row \<Rightarrow> job_state \<Rightarrow> job_state" where
  "process_row env totalRows row s =
     (case hf_featureExtraction env (hf_calls s) (textToEmbed row) of
        Inl e \<Rightarrow> s\<lparr>hf_calls := hf_calls s + 1,
                   console := console s @ [LogRowFailed (message e)]\<rparr>
      | Inr t \<Rightarrow>
          (case pool_query_error env (queries s) of
             Some e \<Rightarrow> s\<lparr>hf_calls := hf_calls s + 1, queries := queries s + 1,
                         updates := updates s + 1,
                         console := console s @ [LogRowFailed (message e)]\<rparr>
           | None \<Rightarrow> s\<lparr>hf_calls := hf_calls s + 1, queries := queries s + 1,
                       updates := updates s + 1,
                       table := update_embedding (flatEmbedding t) (fst row) (table s),
                       processed := processed s + 1,
                       console := console s @
                         [LogRowOk (processed s + 1) totalRows (snd (snd row)) (fst row)
                            (take 40 (fst (snd row)))]\<rparr>))"

fun process_rows :: "job_services \<Rightarrow> nat \<Rightarrow> batch_row list \<Rightarrow> job_state \<Rightarrow> job_state" where
  "process_rows env totalRows [] s = s"
| "process_rows env totalRows (row # rows) s =
     process_rows env totalRows rows (process_row env totalRows row s)"

text \<open>
  How the \<open>while\<close> loop is left: normally, or by a rejected batch query, which the outer
  \<open>catch\<close> reports as fatal. The loop need not end, so it is a partial function.
\<close>

datatype job_exit = Completed job_state | Thrown error job_state

partial_function (option) batches :: "job_services \<Rightarrow> nat \<Rightarrow> job_state \<Rightarrow> job_exit option" where
  "batches env totalRows s =
     (if processed s < totalRows then
        (case pool_query_error env (queries s) of
           Some e \<Rightarrow> Some (Thrown e (s\<lparr>batchNumber := batchNumber s + 1, queries := queries s + 1\<rparr>))
         | None \<Rightarrow>
             if length (select_batch BATCH_SIZE (table s)) = 0
             then Some (Completed (s\<lparr>batchNumber := batchNumber s + 1, queries := queries s + 1\<rparr>))
             else batches env totalRows
                    (process_rows env totalRows (select_batch BATCH_SIZE (table s))
                       (s\<lparr>batchNumber := batchNumber s + 1, queries := queries s + 1,
                          console := console s @
                            [LogBatch (batchNumber s + 1) (processed s) totalRows]\<rparr>)))
      else Some (Completed s))"

declare batches.simps [code]

definition generateEmbeddings :: "job_services \<Rightarrow> tariff_code list \<Rightarrow> job_state option" where
  "generateEmbeddings env rows =
     (case pool_query_error env 0 of
        Some e \<Rightarrow>
          Some \<lparr>table = rows, processed = 0, batchNumber = 0, queries = 1, hf_calls = 0,
                updates = 0, console = [LogFatal e], pool_ended = True\<rparr>
      | None \<Rightarrow>
          (case batches env (count_needing rows)
                  \<lparr>table = rows, processed = 0, batchNumber = 0, queries = 1, hf_calls = 0,
                   updates = 0, console = [LogFound (count_needing rows)],
                   pool_ended = False\<rparr> of
             None \<Rightarrow> None
           | Some (Completed s) \<Rightarrow>
               Some (s\<lparr>console := console s @ [LogDone (processed s)], pool_ended := True\<rparr>)
           | Some (Thrown e s) \<Rightarrow>
               Some (s\<lparr>console := console s @ [LogFatal e], pool_ended := True\<rparr>)))"

text \<open>
  The state at the first loop test, and one pass of the loop's body (a batch that was
  selected and processed), which leads from one loop test to the next.
\<close>

definition loop_entry :: "tariff_code list \<Rightarrow> job_state" where
  "loop_entry rows =
     \<lparr>table = rows, processed = 0, batchNumber = 0, queries = 1, hf_calls = 0,
      updates = 0, console = [LogFound (count_needing rows)], pool_ended = False\<rparr>"

definition loop_body :: "job_services \<Rightarrow> nat \<Rightarrow> job_state \<Rightarrow> job_state" where
  "loop_body env totalRows s =
     process_rows env totalRows (select_batch BATCH_SIZE (table s))
       (s\<lparr>batchNumber := batchNumber s + 1, queries := queries s + 1,
          console := console s @
            [LogBatch (batchNumber s + 1) (processed s) totalRows]\<rparr>)"

text \<open>The number of rows without an embedding: what the job works off.\<close>

definition nulls :: "tariff_code list \<Rightarrow> nat" where
  "nulls rows = length (filter (\<lambda>r. embedding r = None) rows)"

text \<open>The failure lines on the console.\<close>

definition failures :: "log_line list \<Rightarrow> nat" where
  "failures ls = length (filter (\<lambda>l. case l of LogRowFailed m \<Rightarrow> True | _ \<Rightarrow> False) ls)"

section \<open>Numbers\<close>

text \<open>
  A \<open>float8\<close> of the store, which reaches the route as a JavaScript number: a real number
  or \<open>NaN\<close>. (Infinities do not arise here.)
\<close>

datatype float8 = Num real | NaN

text \<open>
  Rounding a real number to the nearest double, a tie going to the even significand:
  the doubles from \<open>2 ^ e\<close> to \<open>2 ^ (e + 1)\<close> are the multiples of \<open>2 ^ (e - 52)\<close>. (This
  is the rounding of the normal range, without underflow or overflow, which the
  percentages of the route never reach.)
\<close>

definition round_even :: "real \<Rightarrow> int" where
  "round_even x =
     (if x - of_int \<lfloor>x\<rfloor> < 1 / 2 then \<lfloor>x\<rfloor>
      else if 1 / 2 < x - of_int \<lfloor>x\<rfloor> then \<lfloor>x\<rfloor> + 1
      else if even \<lfloor>x\<rfloor> then \<lfloor>x\<rfloor> else \<lfloor>x\<rfloor> + 1)"

definition ulp :: "real \<Rightarrow> real" where
  "ulp x = 2 powr (of_int \<lfloor>log 2 \<bar>x\<bar>\<rfloor> - 52)"

definition to_double :: "real \<Rightarrow> real" where
  "to_double x = (if x = 0 then 0 else of_int (round_even (x / ulp x)) * ulp x)"

section \<open>Candidate retrieval\<close>

text \<open>
  The store's operator \<open><=>\<close> is the cosine distance of two vectors: 1 minus the inner
  product divided by the root of the product of the squared norms. When one of the
  vectors has norm zero the quotient is 0/0 and the distance is \<open>NaN\<close>. The distance is
  computed here over the real numbers.
\<close>

definition dot :: "real list \<Rightarrow> real list \<Rightarrow> real" where
  "dot a b = sum_list (map (\<lambda>(x, y). x * y) (zip a b))"

definition cosine_distance :: "real list \<Rightarrow> real list \<Rightarrow> float8" where
  "cosine_distance a b =
     (if sqrt (dot a a * dot b b) = 0 then NaN
      else Num (1 - dot a b / sqrt (dot a a * dot b b)))"

text \<open>\<open>1 - (embedding <=> $1::vector)\<close>, and the place of a distance in an ascending
  \<open>ORDER BY\<close>: the store sorts \<open>NaN\<close> after every number.\<close>

definition one_minus :: "float8 \<Rightarrow> float8" where
  "one_minus d = (case d of Num x \<Rightarrow> Num (1 - x) | NaN \<Rightarrow> NaN)"

definition order_key :: "float8 \<Rightarrow> bool \<times> real" where
  "order_key d = (case d of Num x \<Rightarrow> (False, x) | NaN \<Rightarrow> (True, 0))"

text \<open>A row of the retrieval query's result.\<close>

record candidate =
  code :: js_string
  description :: js_string
  cand_general :: "js_string option"
  cand_special :: "js_string option"
  cand_indent :: int
  similarity :: float8

text \<open>
  The request side's collaborators: the embedding service (one call per request), the
  pooled store (its rows, and whether it rejects the query, as on a lost connection or a
  vector it cannot compare), and the two language-model chains. The classification chain
  is prompt, model and schema parser together; it sees the description, the country and
  the numbered candidate lines (number, code, description, similarity percentage). Field
  \<open>chapter\<close> of the schema is \<open>chapter_no\<close> here.
\<close>

record classification =
  hts_code :: js_string
  hts_code_description :: js_string
  confidence :: real
  chapter_no :: js_string
  chapter_description :: js_string
  heading :: js_string
  heading_description :: js_string
  subheading :: js_string
  subheading_description :: js_string
  reasoning_brief :: js_string
  alternative_codes :: "js_string list"

record classification_input =
  ci_product_description :: js_string
  ci_country_of_origin :: js_value
  ci_candidates :: "(nat \<times> js_string \<times> js_string \<times> float8) list"

record justification_input =
  ji_product_description :: js_string
  ji_hts_code :: js_string
  ji_hts_code_description :: js_string
  ji_chapter :: js_string
  ji_chapter_description :: js_string
  ji_heading :: js_string
  ji_heading_description :: js_string
  ji_subheading :: js_string
  ji_subheading_description :: js_string
  ji_alternatives :: js_string
  ji_reasoning_brief :: js_string

record services =
  featureExtraction :: "js_string \<Rightarrow> error + tensor"
  tariff_codes :: "tariff_code list"
  query_error :: "error option"
  classificationChain :: "classification_input \<Rightarrow> error + classification"
  justificationChain :: "justification_input \<Rightarrow> error + js_string"

text \<open>The calls a request makes to its collaborators, in order.\<close>

datatype call =
    EmbeddingCall js_string
  | StoreQuery
  | ClassifierCall
  | JustificationCall

text \<open>
  The retrieval query. \<open>ORDER BY embedding <=> $1, indent DESC\<close> is an ascending sort on
  the pair (distance, negated indent), a \<open>NaN\<close> distance coming after every number. The
  store fixes no order among rows equal in both; here they keep their table order. A
  negative \<open>LIMIT\<close> is rejected by the store.
\<close>

definition pool_query :: "services \<Rightarrow> real list \<Rightarrow> int \<Rightarrow> error + candidate list" where
  "pool_query env q k =
     (case query_error env of
        Some e \<Rightarrow> Inl e
      | None \<Rightarrow>
          if k < 0 then Inl (Error (utf16 ''LIMIT must not be negative''))
          else Inr (map (\<lambda>r. \<lparr>code = the (htsno r), description = descript r,
                              cand_general = general r, cand_special = special r,
                              cand_indent = indent r,
                              similarity =
                                one_minus (cosine_distance (the (embedding r)) q)\<rparr>)
                 (take (nat k)
                   (sort_key
                     (\<lambda>r. (order_key (cosine_distance (the (embedding r)) q), - indent r))
                     (filter (\<lambda>r. indent r \<le> 2 \<and> embedding r \<noteq> None \<and> htsno r \<noteq> None)
                        (tariff_codes env))))))"

definition retrieveHTSCodes ::
    "services \<Rightarrow> js_string \<Rightarrow> int \<Rightarrow> (error + candidate list) \<times> call list" where
  "retrieveHTSCodes env productDescription k =
     (case featureExtraction env (utf16 ''Product: '' @ productDescription) of
        Inl e \<Rightarrow> (Inl e, [EmbeddingCall (utf16 ''Product: '' @ productDescription)])
      | Inr queryEmbedding \<Rightarrow>
          (pool_query env (flatEmbedding queryEmbedding) k,
           [EmbeddingCall (utf16 ''Product: '' @ productDescription), StoreQuery]))"

section \<open>The classification route\<close>

text \<open>
  \<open>Number.prototype.toFixed(1)\<close> read back by \<open>parseFloat\<close>: the multiple of one tenth
  nearest to the number's exact value, a tie going away from zero.
\<close>

definition toFixed1 :: "real \<Rightarrow> real" where
  "toFixed1 x = sgn x * of_int \<lfloor>\<bar>x\<bar> * 10 + 1 / 2\<rfloor> / 10"

text \<open>
  \<open>(c.similarity * 100).toFixed(1)\<close>: the product is a double, rounded from the exact
  product, and it is this double that is rounded to one decimal place. The product of
  \<open>NaN\<close> is \<open>NaN\<close>, printed as \<open>"NaN"\<close>, read back as \<open>NaN\<close> and sent as \<open>null\<close>.
\<close>

definition percent1 :: "float8 \<Rightarrow> float8" where
  "percent1 s = (case s of Num x \<Rightarrow> Num (toFixed1 (to_double (x * 100))) | NaN \<Rightarrow> NaN)"

record request =
  product_description :: js_value
  country_of_origin :: js_value

record reported_candidate =
  rc_code :: js_string
  rc_description :: js_string
  rc_similarity :: float8

record code_and_description =
  cd_code :: js_string
  cd_description :: js_string

record success_bundle =
  b_hts_code :: js_string
  b_description :: js_string
  b_confidence :: real
  b_chapter :: code_and_description
  b_heading :: code_and_description
  b_subheading :: code_and_description
  b_alternatives_considered :: "js_string list"
  b_justification :: js_string
  b_retrieved_candidates :: "reported_candidate list"
  b_retrieval_count :: nat

text \<open>
  What the handler does with the response object: a status and a JSON body, or nothing
  at all when an exception escapes the handler (thrown before the \<open>try\<close> block).
\<close>

datatype body =
    ErrorOnly js_string
  | ErrorMessage js_string js_string
  | ErrorDetails js_string js_string
  | Bundle success_bundle

datatype outcome = Sent nat body | Uncaught error

definition candidatesText ::
    "candidate list \<Rightarrow> (nat \<times> js_string \<times> js_string \<times> float8) list" where
  "candidatesText candidates =
     map (\<lambda>(i, c). (i + 1, code c, description c, percent1 (similarity c)))
       (zip [0 ..< length candidates] candidates)"

definition make_bundle :: "classification \<Rightarrow> js_string \<Rightarrow> candidate list \<Rightarrow> success_bundle" where
  "make_bundle c justification candidates =
     \<lparr>b_hts_code = hts_code c,
      b_description = hts_code_description c,
      b_confidence = confidence c,
      b_chapter = \<lparr>cd_code = chapter_no c, cd_description = chapter_description c\<rparr>,
      b_heading = \<lparr>cd_code = heading c, cd_description = heading_description c\<rparr>,
      b_subheading = \<lparr>cd_code = subheading c, cd_description = subheading_description c\<rparr>,
      b_alternatives_considered = alternative_codes c,
      b_justification = justification,
      b_retrieved_candidates =
        map (\<lambda>c. \<lparr>rc_code = code c, rc_description = description c,
                  rc_similarity = percent1 (similarity c)\<rparr>) candidates,
      b_retrieval_count = length candidates\<rparr>"

definition classification_failed :: "error \<Rightarrow> outcome" where
  "classification_failed err = Sent 500 (ErrorDetails (utf16 ''classification_failed'') (message err))"

text \<open>The objects passed to the two chains' \<open>invoke\<close>.\<close>

definition classification_input_of ::
    "js_string \<Rightarrow> js_value \<Rightarrow> candidate list \<Rightarrow> classification_input" where
  "classification_input_of pd country candidates =
     \<lparr>ci_product_description = pd, ci_country_of_origin = country,
      ci_candidates = candidatesText candidates\<rparr>"

definition justification_input_of :: "js_string \<Rightarrow> classification \<Rightarrow> justification_input" where
  "justification_input_of pd c =
     \<lparr>ji_product_description = pd,
      ji_hts_code = hts_code c,
      ji_hts_code_description = hts_code_description c,
      ji_chapter = chapter_no c,
      ji_chapter_description = chapter_description c,
      ji_heading = heading c,
      ji_heading_description = heading_description c,
      ji_subheading = subheading c,
      ji_subheading_description = subheading_description c,
      ji_alternatives = join (utf16 '', '') (alternative_codes c),
      ji_reasoning_brief = reasoning_brief c\<rparr>"

text \<open>Everything after the validation: the \<open>try\<close> block and its \<open>catch\<close>.\<close>

definition classify ::
    "services \<Rightarrow> js_string \<Rightarrow> js_value \<Rightarrow> outcome \<times> call list" where
  "classify env pd country =
     (case retrieveHTSCodes env pd 5 of
        (Inl err, calls) \<Rightarrow> (classification_failed err, calls)
      | (Inr candidates, calls) \<Rightarrow>
          if length candidates = 0
          then (Sent 404 (ErrorMessage (utf16 ''no_candidates_found'')
                            (utf16 ''No HTS codes found in database'')), calls)
          else
            (case classificationChain env (classification_input_of pd country candidates) of
               Inl err \<Rightarrow> (classification_failed err, calls @ [ClassifierCall])
             | Inr c \<Rightarrow>
                 (case justificationChain env (justification_input_of pd c) of
                    Inl err \<Rightarrow>
                      (classification_failed err, calls @ [ClassifierCall, JustificationCall])
                  | Inr justification \<Rightarrow>
                      (Sent 200 (Bundle (make_bundle c justification candidates)),
                       calls @ [ClassifierCall, JustificationCall]))))"

text \<open>\<open>const { product_description, country_of_origin = "Unknown" } = req.body || {}\<close>\<close>

definition country_or_default :: "js_value \<Rightarrow> js_value" where
  "country_or_default v = (case v of Undefined \<Rightarrow> JString (utf16 ''Unknown'') | _ \<Rightarrow> v)"

text \<open>
  The handler. The guard \<open>!product_description?.trim()\<close> answers 400 for an absent or
  \<open>null\<close> description and for a string that trims to the empty string; on any other
  non-string value \<open>.trim\<close> is not a function and the \<open>TypeError\<close> escapes, since the
  guard stands before the \<open>try\<close>.
\<close>

definition product_description_required :: outcome where
  "product_description_required =
     Sent 400 (ErrorOnly (utf16 ''product_description is required''))"

definition router_post :: "services \<Rightarrow> request \<Rightarrow> outcome \<times> call list" where
  "router_post env req =
     (case product_description req of
        Undefined \<Rightarrow> (product_description_required, [])
      | Null \<Rightarrow> (product_description_required, [])
      | JOther \<Rightarrow>
          (Uncaught (Error (utf16 ''product_description?.trim is not a function'')), [])
      | JString pd \<Rightarrow>
          if trim pd = [] then (product_description_required, [])
          else classify env pd (country_or_default (country_of_origin req)))"

section \<open>Concrete stores and services\<close>

text \<open>Small inputs on which the functions above are run in the examples below.\<close>

definition ex_row :: "string \<Rightarrow> string \<Rightarrow> int \<Rightarrow> real list option \<Rightarrow> tariff_code" where
  "ex_row h d i e =
     \<lparr>row_id = 0, htsno = Some (utf16 h), descript = utf16 d, general = None,
      special = None, indent = i, embedding = e\<rparr>"

definition ex_uncoded :: tariff_code where
  "ex_uncoded =
     \<lparr>row_id = 0, htsno = None, descript = utf16 ''Note'', general = None,
      special = None, indent = 0, embedding = None\<rparr>"

text \<open>
  A table awaiting its embeddings: two rows share code 0101, one of them at indent 3 and
  with another description.
\<close>

definition ex_pending :: "tariff_code list" where
  "ex_pending =
     [ex_row ''0101'' ''Live horses'' 1 None,
      ex_row ''0101'' ''Other'' 3 None,
      ex_row ''0201'' ''Meat of bovine animals'' 1 None]"

text \<open>A table whose eligible rows all carry an embedding.\<close>

definition ex_embedded :: "tariff_code list" where
  "ex_embedded =
     [ex_row ''0101'' ''Live horses'' 1 (Some [1, 0]),
      ex_row ''0101'' ''Other'' 3 None,
      ex_uncoded]"

text \<open>An embedding service that always answers, one that never does, and one that
  fails on its first call only.\<close>

definition job_up :: job_services where
  "job_up = \<lparr>hf_featureExtraction = (\<lambda>n t. Inr (Flat [1, 0])),
             pool_query_error = (\<lambda>n. None)\<rparr>"

definition job_down :: job_services where
  "job_down = \<lparr>hf_featureExtraction = (\<lambda>n t. Inl (Error (utf16 ''Service Unavailable''))),
               pool_query_error = (\<lambda>n. None)\<rparr>"

definition job_flaky :: job_services where
  "job_flaky =
     \<lparr>hf_featureExtraction =
        (\<lambda>n t. if n = 0 then Inl (Error (utf16 ''Service Unavailable''))
               else Inr (Nested ([1, 0] # []))),
      pool_query_error = (\<lambda>n. None)\<rparr>"

definition ex_job_state :: job_state where
  "ex_job_state =
     \<lparr>table = ex_pending, processed = 0, batchNumber = 1, queries = 2, hf_calls = 0,
      updates = 0, console = [], pool_ended = False\<rparr>"

text \<open>
  A state at a loop test after a batch with a failure: \<open>processed\<close> is below the count of
  3, and the only rows without an embedding are not eligible.
\<close>

definition ex_late_state :: job_state where
  "ex_late_state =
     \<lparr>table = ex_embedded, processed = 1, batchNumber = 1, queries = 3, hf_calls = 2,
      updates = 1, console = [LogRowFailed (utf16 ''Service Unavailable'')],
      pool_ended = False\<rparr>"

text \<open>
  A store for retrieval. Against the query vector \<open>[1, 0]\<close> the similarities are 1, 1, 0
  and -1; the other three rows are not eligible.
\<close>

definition ex_store :: "tariff_code list" where
  "ex_store =
     [ex_row ''0101'' ''Live horses'' 1 (Some [1, 0]),
      ex_row ''0101.21'' ''Purebred breeding animals'' 2 (Some [2, 0]),
      ex_row ''0201'' ''Meat of bovine animals'' 0 (Some [0, 1]),
      ex_row ''7324'' ''Sanitary ware of iron or steel'' 1 (Some [- 1, 0]),
      ex_row ''0101.21.00'' ''Horses'' 3 (Some [1, 0]),
      ex_row ''0301'' ''Live fish'' 1 None,
      ex_uncoded\<lparr>embedding := Some [1, 0]\<rparr>]"

definition ex_classification :: classification where
  "ex_classification =
     \<lparr>hts_code = utf16 ''9999'',
      hts_code_description = utf16 ''Special classification provisions'',
      confidence = 1,
      chapter_no = utf16 ''99'',
      chapter_description = utf16 ''Special'',
      heading = utf16 ''9999'',
      heading_description = utf16 ''Special'',
      subheading = utf16 ''9999.00'',
      subheading_description = utf16 ''Special'',
      reasoning_brief = utf16 ''Best match.'',
      alternative_codes = [utf16 ''8888'']\<rparr>"

definition ex_justification :: js_string where
  "ex_justification = utf16 ''# Classification Justification for Code 9999''"

definition ex_services :: services where
  "ex_services =
     \<lparr>featureExtraction = (\<lambda>t. Inr (Flat [1, 0])),
      tariff_codes = ex_store,
      query_error = None,
      classificationChain = (\<lambda>i. Inr ex_classification),
      justificationChain = (\<lambda>i. Inr ex_justification)\<rparr>"

definition ex_request :: request where
  "ex_request =
     \<lparr>product_description = JString (utf16 ''stainless steel kitchen sink''),
      country_of_origin = JString (utf16 ''China'')\<rparr>"

text \<open>What retrieval returns on \<open>ex_store\<close> for the query vector \<open>[1, 0]\<close>.\<close>

definition ex_candidate :: "string \<Rightarrow> string \<Rightarrow> int \<Rightarrow> real \<Rightarrow> candidate" where
  "ex_candidate h d i s =
     \<lparr>code = utf16 h, description = utf16 d, cand_general = None, cand_special = None,
      cand_indent = i, similarity = Num s\<rparr>"

definition ex_candidates :: "candidate list" where
  "ex_candidates =
     [ex_candidate ''0101.21'' ''Purebred breeding animals'' 2 1,
      ex_candidate ''0101'' ''Live horses'' 1 1,
      ex_candidate ''0201'' ''Meat of bovine animals'' 0 0,
      ex_candidate ''7324'' ''Sanitary ware of iron or steel'' 1 (- 1)]"

definition ex_bundle :: success_bundle where
  "ex_bundle =
     make_bundle ex_classification ex_justification ex_candidates"



text \<open>The same services with an empty store, with a language model that is out of
  reach, and with a language model that answers from the candidates.\<close>

definition ex_services_empty :: services where
  "ex_services_empty = ex_services\<lparr>tariff_codes := []\<rparr>"

definition ex_services_llm_down :: services where
  "ex_services_llm_down =
     ex_services\<lparr>classificationChain := (\<lambda>i. Inl (Error (utf16 ''429 Too Many Requests'')))\<rparr>"

definition ex_faithful_classification :: classification where
  "ex_faithful_classification =
     ex_classification\<lparr>hts_code := utf16 ''7324'', alternative_codes := [utf16 ''0101'']\<rparr>"

definition ex_services_faithful :: services where
  "ex_services_faithful =
     ex_services\<lparr>classificationChain := (\<lambda>i. Inr ex_faithful_classification)\<rparr>"

definition ex_bundle_faithful :: success_bundle where
  "ex_bundle_faithful = make_bundle ex_faithful_classification ex_justification ex_candidates"

section \<open>The backfill job: rows, batches and updates\<close>

lemma process_row_counts:
  "hf_calls (process_row env totalRows row s) = hf_calls s + 1 \<and>
   processed (process_row env totalRows row s) + failures (console (process_row env totalRows row s))
     = processed s + failures (console s) + 1"
  by (simp add: process_row_def failures_def split: sum.splits option.splits)

lemma process_row_embedding_failed:
  assumes "hf_featureExtraction env (hf_calls s) (textToEmbed row) = Inl e"
  shows "process_row env totalRows row s =
           s\<lparr>hf_calls := hf_calls s + 1, console := console s @ [LogRowFailed (message e)]\<rparr>"
  using assms by (simp add: process_row_def)

lemma process_row_update_failed:
  assumes "hf_featureExtraction env (hf_calls s) (textToEmbed row) = Inr t"
      and "pool_query_error env (queries s) = Some e"
  shows "process_row env totalRows row s =
           s\<lparr>hf_calls := hf_calls s + 1, queries := queries s + 1, updates := updates s + 1,
             console := console s @ [LogRowFailed (message e)]\<rparr>"
  using assms by (simp add: process_row_def)

lemma process_rows_counts:
  "hf_calls (process_rows env totalRows rows s) = hf_calls s + length rows \<and>
   processed (process_rows env totalRows rows s) + failures (console (process_rows env totalRows rows s))
     = processed s + failures (console s) + length rows"
proof (induction rows arbitrary: s)
  case Nil
  show ?case by simp
next
  case (Cons row rows)
  show ?case
    using Cons.IH [of "process_row env totalRows row s"] process_row_counts [of env totalRows row s]
    by simp
qed

text \<open>
  Claim C8. A failure while embedding or updating one row is caught and logged, and the
  remaining rows of the batch are still processed. When the embedding call of a row is
  rejected with error \<open>e\<close>, the failure line with \<open>e\<close>'s message is put on the console,
  nothing else changes but the count of embedding calls (the table and \<open>processed\<close> are as
  before), and the rest of the batch is processed from there; likewise when the row's
  \<open>UPDATE\<close> is rejected. So, whatever the service and the store answer, a batch of \<open>n\<close>
  rows makes \<open>n\<close> embedding calls, and each row ends either counted in \<open>processed\<close> or as
  one failure line.
\<close>

theorem row_failure_never_aborts_batch:
  "(\<forall>e. hf_featureExtraction env (hf_calls s) (textToEmbed row) = Inl e \<longrightarrow>
      process_rows env totalRows (row # rest) s =
        process_rows env totalRows rest
          (s\<lparr>hf_calls := hf_calls s + 1,
             console := console s @ [LogRowFailed (message e)]\<rparr>)) \<and>
   (\<forall>t e. hf_featureExtraction env (hf_calls s) (textToEmbed row) = Inr t \<and>
      pool_query_error env (queries s) = Some e \<longrightarrow>
      process_rows env totalRows (row # rest) s =
        process_rows env totalRows rest
          (s\<lparr>hf_calls := hf_calls s + 1, queries := queries s + 1, updates := updates s + 1,
             console := console s @ [LogRowFailed (message e)]\<rparr>)) \<and>
   hf_calls (process_rows env totalRows rows s) = hf_calls s + length rows \<and>
   processed (process_rows env totalRows rows s) +
     failures (console (process_rows env totalRows rows s))
     = processed s + failures (console s) + length rows"
  using process_rows_counts [of env totalRows rows s]
  by (simp add: process_row_embedding_failed process_row_update_failed)

text \<open>
  Claim C10. When the embedding call and the \<open>UPDATE\<close> of a batch row succeed, the new
  embedding is written to every row of the table that carries the row's code, whatever
  its indent and description, and every other row is left as it was.
\<close>

theorem update_reaches_every_row_of_the_code:
  assumes "hf_featureExtraction env (hf_calls s) (textToEmbed row) = Inr t"
      and "pool_query_error env (queries s) = None"
  shows "length (table (process_row env totalRows row s)) = length (table s) \<and>
         (\<forall>i < length (table s).
            table (process_row env totalRows row s) ! i =
              (if htsno (table s ! i) = Some (fst row)
               then (table s ! i)\<lparr>embedding := Some (flatEmbedding t)\<rparr>
               else table s ! i))"
  using assms by (simp add: process_row_def update_embedding_def)

lemma select_batch_none:
  assumes "\<forall>r\<in>set rows. indent r \<le> 2 \<and> htsno r \<noteq> None \<longrightarrow> embedding r \<noteq> None"
  shows "select_batch n rows = []"
proof -
  have "filter (\<lambda>r. indent r \<le> 2 \<and> embedding r = None \<and> htsno r \<noteq> None) rows = []"
    using assms by (auto simp: filter_empty_conv)
  then show ?thesis by (simp add: select_batch_def)
qed

text \<open>
  Claim C9. On a store in which every row with indent at most 2 and a code already has an
  embedding, the job ends having made no embedding call and no update, and the table is
  what it was.
\<close>

theorem rerun_on_embedded_store_is_noop:
  assumes "\<forall>r\<in>set rows. indent r \<le> 2 \<and> htsno r \<noteq> None \<longrightarrow> embedding r \<noteq> None"
  shows "\<exists>s. generateEmbeddings env rows = Some s \<and> hf_calls s = 0 \<and> updates s = 0 \<and>
             table s = rows"
proof (cases "pool_query_error env 0")
  case (Some e)
  then show ?thesis by (simp add: generateEmbeddings_def)
next
  case None
  note sb = select_batch_none [OF assms, of BATCH_SIZE]
  show ?thesis
    using None sb
    by (subst generateEmbeddings_def, subst batches.simps)
       (simp split: option.splits)
qed

section \<open>The backfill job: termination\<close>

lemma nulls_update_le: "nulls (update_embedding v h rows) \<le> nulls rows"
  by (induction rows) (simp_all add: nulls_def update_embedding_def)

lemma nulls_update_less:
  assumes "r \<in> set rows" and "htsno r = Some h" and "embedding r = None"
  shows "nulls (update_embedding v h rows) < nulls rows"
  using assms
proof (induction rows)
  case Nil
  then show ?case by simp
next
  case (Cons a rows)
  have le: "nulls (update_embedding v h rows) \<le> nulls rows" by (rule nulls_update_le)
  show ?case
  proof (cases "a = r")
    case True
    with Cons.prems le show ?thesis
      by (simp add: nulls_def update_embedding_def)
  next
    case False
    with Cons have "nulls (update_embedding v h rows) < nulls rows" by simp
    then show ?thesis
      by (simp add: nulls_def update_embedding_def)
  qed
qed

lemma process_row_progress:
  "nulls (table (process_row env T row s)) \<le> nulls (table s) \<and>
   queries s \<le> queries (process_row env T row s) \<and>
   hf_calls (process_row env T row s) = hf_calls s + 1"
  by (simp add: process_row_def nulls_update_le split: sum.splits option.splits)

lemma process_rows_progress:
  "nulls (table (process_rows env T rows s)) \<le> nulls (table s) \<and>
   queries s \<le> queries (process_rows env T rows s) \<and>
   hf_calls (process_rows env T rows s) = hf_calls s + length rows"
proof (induction rows arbitrary: s)
  case Nil
  show ?case by simp
next
  case (Cons row rows)
  show ?case
    using Cons.IH [of "process_row env T row s"] process_row_progress [of env T row s]
    by simp
qed

lemma select_batch_member:
  assumes "row \<in> set (select_batch n rows)"
  shows "\<exists>r\<in>set rows. htsno r = Some (fst row) \<and> embedding r = None"
proof -
  from assms have "row \<in> set (sort (remdups (map (\<lambda>r. (the (htsno r), descript r, indent r))
       (filter (\<lambda>r. indent r \<le> 2 \<and> embedding r = None \<and> htsno r \<noteq> None) rows))))"
    unfolding select_batch_def by (rule in_set_takeD)
  then obtain r where "r \<in> set rows" "embedding r = None" "htsno r \<noteq> None"
      "row = (the (htsno r), descript r, indent r)"
    by auto
  then show ?thesis by (intro bexI [of _ r]) auto
qed

lemma process_row_success:
  assumes "hf_featureExtraction env (hf_calls s) (textToEmbed row) = Inr v"
      and "pool_query_error env (queries s) = None"
      and "r \<in> set (table s)" and "htsno r = Some (fst row)" and "embedding r = None"
  shows "nulls (table (process_row env T row s)) < nulls (table s)"
  using assms by (simp add: process_row_def nulls_update_less)

lemma batches_terminates:
  assumes hf: "\<forall>n\<ge>N. \<forall>t. \<exists>v. hf_featureExtraction env n t = Inr v"
      and db: "\<forall>n\<ge>N. pool_query_error env n = None"
  shows "\<exists>r. batches env T s = Some r"
proof (induction "(N - queries s) + (N - hf_calls s) + nulls (table s)" arbitrary: s
         rule: less_induct)
  case less
  define rows where "rows = select_batch BATCH_SIZE (table s)"
  define s2 where "s2 = s\<lparr>batchNumber := batchNumber s + 1, queries := queries s + 1,
                          console := console s @ [LogBatch (batchNumber s + 1) (processed s) T]\<rparr>"
  define s' where "s' = process_rows env T rows s2"
  show ?case
  proof (cases "processed s < T \<and> pool_query_error env (queries s) = None \<and> rows \<noteq> []")
    case False
    then show ?thesis
      by (subst batches.simps) (auto simp: rows_def split: option.splits)
  next
    case True
    have p: "nulls (table s') \<le> nulls (table s)" "queries s + 1 \<le> queries s'"
            "hf_calls s' = hf_calls s + length rows"
      using process_rows_progress [of env T rows s2] by (simp_all add: s'_def s2_def)
    from True have len: "1 \<le> length rows" by (cases rows) simp_all
    have "(N - queries s') + (N - hf_calls s') + nulls (table s')
            < (N - queries s) + (N - hf_calls s) + nulls (table s)"
    proof (cases "queries s < N \<or> hf_calls s < N")
      case True
      with p len show ?thesis by linarith
    next
      case False
      then have q: "N \<le> queries s2" "N \<le> hf_calls s2" by (simp_all add: s2_def)
      from True obtain row rest where rows: "rows = row # rest" by (cases rows) auto
      then have "row \<in> set (select_batch BATCH_SIZE (table s))" by (simp add: rows_def)
      from select_batch_member [OF this] obtain r where
        r: "r \<in> set (table s2)" "htsno r = Some (fst row)" "embedding r = None"
        by (auto simp: s2_def)
      from hf q obtain v where v: "hf_featureExtraction env (hf_calls s2) (textToEmbed row) = Inr v"
        by blast
      from db q have d: "pool_query_error env (queries s2) = None" by blast
      have "nulls (table (process_row env T row s2)) < nulls (table s2)"
        by (rule process_row_success [OF v d r])
      moreover have "nulls (table s') \<le> nulls (table (process_row env T row s2))"
        using process_rows_progress [of env T rest "process_row env T row s2"]
        by (simp add: s'_def rows)
      moreover have "nulls (table s2) = nulls (table s)" by (simp add: s2_def)
      ultimately have "nulls (table s') < nulls (table s)" by simp
      with p show ?thesis by linarith
    qed
    from less [OF this] obtain r where "batches env T s' = Some r" by blast
    moreover have "batches env T s = batches env T s'"
      using True by (subst batches.simps) (simp add: rows_def s'_def s2_def)
    ultimately show ?thesis by simp
  qed
qed

lemma select_batch_empty:
  assumes "\<forall>r\<in>set rows. \<not> (indent r \<le> 2 \<and> embedding r = None \<and> htsno r \<noteq> None)"
  shows "select_batch n rows = []"
proof -
  have "filter (\<lambda>r. indent r \<le> 2 \<and> embedding r = None \<and> htsno r \<noteq> None) rows = []"
    using assms by (auto simp: filter_empty_conv)
  then show ?thesis by (simp add: select_batch_def)
qed

lemma batches_leaves_on_empty_batch:
  assumes "select_batch BATCH_SIZE (table s) = []"
  shows "batches env T s =
           Some (if processed s < T
                 then (case pool_query_error env (queries s) of
                         Some e \<Rightarrow>
                           Thrown e (s\<lparr>batchNumber := batchNumber s + 1, queries := queries s + 1\<rparr>)
                       | None \<Rightarrow>
                           Completed (s\<lparr>batchNumber := batchNumber s + 1, queries := queries s + 1\<rparr>))
                 else Completed s)"
  using assms by (subst batches.simps) (simp split: option.splits)

lemma batches_next_pass:
  "batches env T s = batches env T (loop_body env T s) \<or> (\<exists>r. batches env T s = Some r)"
proof (cases "processed s < T \<and> pool_query_error env (queries s) = None \<and>
              select_batch BATCH_SIZE (table s) \<noteq> []")
  case True
  then have "batches env T s = batches env T (loop_body env T s)"
    by (subst batches.simps) (simp add: loop_body_def)
  then show ?thesis by simp
next
  case False
  then have "\<exists>r. batches env T s = Some r"
    by (subst batches.simps) (auto split: option.splits)
  then show ?thesis by simp
qed

lemma batches_ends_after_passes:
  assumes "\<forall>r\<in>set (table ((loop_body env T ^^ n) s)).
             \<not> (indent r \<le> 2 \<and> embedding r = None \<and> htsno r \<noteq> None)"
  shows "\<exists>r. batches env T s = Some r"
  using assms
proof (induction n arbitrary: s)
  case 0
  then have "select_batch BATCH_SIZE (table s) = []"
    by (intro select_batch_empty) simp
  from batches_leaves_on_empty_batch [OF this] show ?case by simp
next
  case (Suc n)
  from Suc.prems have "\<forall>r\<in>set (table ((loop_body env T ^^ n) (loop_body env T s))).
             \<not> (indent r \<le> 2 \<and> embedding r = None \<and> htsno r \<noteq> None)"
    by (simp add: funpow_swap1)
  from Suc.IH [OF this] obtain r where "batches env T (loop_body env T s) = Some r" by blast
  with batches_next_pass [of env T s] show ?case by auto
qed

lemma job_ends_after_passes:
  assumes "\<forall>r\<in>set (table ((loop_body env (count_needing rows) ^^ n) (loop_entry rows))).
             \<not> (indent r \<le> 2 \<and> embedding r = None \<and> htsno r \<noteq> None)"
  shows "\<exists>s'. generateEmbeddings env rows = Some s' \<and> pool_ended s'"
proof (cases "pool_query_error env 0")
  case (Some e)
  then show ?thesis by (simp add: generateEmbeddings_def)
next
  case None
  from batches_ends_after_passes [OF assms] obtain r where
    "batches env (count_needing rows) (loop_entry rows) = Some r"
    by blast
  with None show ?thesis
    by (cases r) (simp_all add: generateEmbeddings_def loop_entry_def)
qed

text \<open>
  Claim C7. The job terminates whenever no unembedded eligible rows (indent at most 2,
  no embedding, a code) remain. At a loop test where none remains the loop is left at
  once, without a further embedding call or update, whatever \<open>processed\<close> and the console
  are by then and whatever the services would answer; in particular when earlier
  failures have kept \<open>processed\<close> below \<open>totalRows\<close>, or rows that are not eligible are
  still without an embedding. And a run of the job in which, after some number of
  passes of the loop (failed rows included), no such row remains, returns with the pool
  closed.
\<close>

theorem job_ends_when_no_eligible_rows_remain:
  "((\<forall>r\<in>set (table s). \<not> (indent r \<le> 2 \<and> embedding r = None \<and> htsno r \<noteq> None)) \<longrightarrow>
      batches env T s =
        Some (if processed s < T
              then (case pool_query_error env (queries s) of
                      Some e \<Rightarrow>
                        Thrown e (s\<lparr>batchNumber := batchNumber s + 1, queries := queries s + 1\<rparr>)
                    | None \<Rightarrow>
                        Completed (s\<lparr>batchNumber := batchNumber s + 1, queries := queries s + 1\<rparr>))
              else Completed s)) \<and>
   ((\<exists>n. \<forall>r\<in>set (table ((loop_body env (count_needing rows) ^^ n) (loop_entry rows))).
           \<not> (indent r \<le> 2 \<and> embedding r = None \<and> htsno r \<noteq> None)) \<longrightarrow>
      (\<exists>s'. generateEmbeddings env rows = Some s' \<and> pool_ended s'))"
proof (intro conjI impI)
  assume "\<forall>r\<in>set (table s). \<not> (indent r \<le> 2 \<and> embedding r = None \<and> htsno r \<noteq> None)"
  then have "select_batch BATCH_SIZE (table s) = []"
    by (rule select_batch_empty)
  then show "batches env T s =
        Some (if processed s < T
              then (case pool_query_error env (queries s) of
                      Some e \<Rightarrow>
                        Thrown e (s\<lparr>batchNumber := batchNumber s + 1, queries := queries s + 1\<rparr>)
                    | None \<Rightarrow>
                        Completed (s\<lparr>batchNumber := batchNumber s + 1, queries := queries s + 1\<rparr>))
              else Completed s)"
    by (rule batches_leaves_on_empty_batch)
next
  assume "\<exists>n. \<forall>r\<in>set (table ((loop_body env (count_needing rows) ^^ n) (loop_entry rows))).
           \<not> (indent r \<le> 2 \<and> embedding r = None \<and> htsno r \<noteq> None)"
  then obtain n where
    "\<forall>r\<in>set (table ((loop_body env (count_needing rows) ^^ n) (loop_entry rows))).
           \<not> (indent r \<le> 2 \<and> embedding r = None \<and> htsno r \<noteq> None)"
    by blast
  then show "\<exists>s'. generateEmbeddings env rows = Some s' \<and> pool_ended s'"
    by (rule job_ends_after_passes)
qed

text \<open>
  Two further facts on how runs with failures end. A row that a failure leaves
  unembedded is selected again by the next batch query; so the job returns when the
  embedding service and the store fail only finitely often (from their \<open>N\<close>-th calls on
  they answer). While every embedding call fails and an unembedded eligible row is in
  the table, the same batch is selected over and over and the job does not return.
\<close>

lemma job_ends_once_failures_stop:
  assumes "\<forall>n\<ge>N. \<forall>t. \<exists>v. hf_featureExtraction env n t = Inr v"
      and "\<forall>n\<ge>N. pool_query_error env n = None"
  shows "\<exists>s. generateEmbeddings env rows = Some s \<and> pool_ended s"
proof (cases "pool_query_error env 0")
  case (Some e)
  then show ?thesis by (simp add: generateEmbeddings_def)
next
  case None
  from batches_terminates [OF assms] obtain r where
    "batches env (count_needing rows)
       \<lparr>table = rows, processed = 0, batchNumber = 0, queries = 1, hf_calls = 0,
        updates = 0, console = [LogFound (count_needing rows)], pool_ended = False\<rparr> = Some r"
    by blast
  with None show ?thesis
    by (cases r) (simp_all add: generateEmbeddings_def)
qed

lemma process_rows_all_fail:
  assumes "\<forall>n t. \<exists>e. hf_featureExtraction env n t = Inl e"
  shows "table (process_rows env T rows s) = table s \<and>
         processed (process_rows env T rows s) = processed s"
proof (induction rows arbitrary: s)
  case Nil
  show ?case by simp
next
  case (Cons row rows)
  from assms obtain e where "hf_featureExtraction env (hf_calls s) (textToEmbed row) = Inl e"
    by blast
  then have "table (process_row env T row s) = table s \<and>
             processed (process_row env T row s) = processed s"
    by (simp add: process_row_def)
  with Cons.IH [of "process_row env T row s"] show ?case by simp
qed

lemma batches_never_returns:
  assumes ret: "batches env T s = Some y"
      and hf: "\<forall>n t. \<exists>e. hf_featureExtraction env n t = Inl e"
      and db: "\<forall>n. pool_query_error env n = None"
  shows "\<not> (processed s < T \<and> select_batch BATCH_SIZE (table s) \<noteq> [])"
proof -
  have "env = env \<longrightarrow>
          \<not> (processed s < T \<and> select_batch BATCH_SIZE (table s) \<noteq> [])"
  proof (rule batches.raw_induct
         [where P = "\<lambda>env' T s y. env' = env \<longrightarrow>
                       \<not> (processed s < T \<and> select_batch BATCH_SIZE (table s) \<noteq> [])",
          OF _ ret])
  fix f :: "job_services \<Rightarrow> nat \<Rightarrow> job_state \<Rightarrow> job_exit option"
    and env' :: job_services and T :: nat and s :: job_state and y :: job_exit
  assume IH: "\<And>env' T s y. f env' T s = Some y \<Longrightarrow> env' = env \<longrightarrow>
                \<not> (processed s < T \<and> select_batch BATCH_SIZE (table s) \<noteq> [])"
  assume step: "(if processed s < T then
        (case pool_query_error env' (queries s) of
           Some e \<Rightarrow> Some (Thrown e (s\<lparr>batchNumber := batchNumber s + 1, queries := queries s + 1\<rparr>))
         | None \<Rightarrow>
             if length (select_batch BATCH_SIZE (table s)) = 0
             then Some (Completed (s\<lparr>batchNumber := batchNumber s + 1, queries := queries s + 1\<rparr>))
             else f env' T
                    (process_rows env' T (select_batch BATCH_SIZE (table s))
                       (s\<lparr>batchNumber := batchNumber s + 1, queries := queries s + 1,
                          console := console s @
                            [LogBatch (batchNumber s + 1) (processed s) T]\<rparr>)))
      else Some (Completed s)) = Some y"
  show "env' = env \<longrightarrow> \<not> (processed s < T \<and> select_batch BATCH_SIZE (table s) \<noteq> [])"
  proof (intro impI notI)
    assume e: "env' = env" and inv: "processed s < T \<and> select_batch BATCH_SIZE (table s) \<noteq> []"
    define s' where "s' = process_rows env T (select_batch BATCH_SIZE (table s))
                       (s\<lparr>batchNumber := batchNumber s + 1, queries := queries s + 1,
                          console := console s @
                            [LogBatch (batchNumber s + 1) (processed s) T]\<rparr>)"
    from step e inv db have "f env T s' = Some y" by (simp add: s'_def)
    from IH [OF this] have "\<not> (processed s' < T \<and> select_batch BATCH_SIZE (table s') \<noteq> [])"
      by simp
    moreover have "table s' = table s" "processed s' = processed s"
      using process_rows_all_fail [OF hf] by (simp_all add: s'_def)
    ultimately show False using inv by simp
  qed
  qed
  then show ?thesis by simp
qed

lemma job_never_ends_while_service_is_down:
  assumes hf: "\<forall>n t. \<exists>e. hf_featureExtraction env n t = Inl e"
      and db: "\<forall>n. pool_query_error env n = None"
      and r: "r \<in> set rows" "indent r \<le> 2" "embedding r = None" "htsno r \<noteq> None"
  shows "generateEmbeddings env rows = None"
proof -
  let ?s = "\<lparr>table = rows, processed = 0, batchNumber = 0, queries = 1, hf_calls = 0,
        updates = 0, console = [LogFound (count_needing rows)], pool_ended = False\<rparr>"
  have "r \<in> set (filter (\<lambda>r. indent r \<le> 2 \<and> embedding r = None) rows)" using r by simp
  then have c: "0 < count_needing rows"
    unfolding count_needing_def by (metis length_pos_if_in_set)
  have "r \<in> set (filter (\<lambda>r. indent r \<le> 2 \<and> embedding r = None \<and> htsno r \<noteq> None) rows)"
    using r by simp
  then have "filter (\<lambda>r. indent r \<le> 2 \<and> embedding r = None \<and> htsno r \<noteq> None) rows \<noteq> []"
    by (metis empty_iff list.set(1))
  then have "sort (remdups (map (\<lambda>r. (the (htsno r), descript r, indent r))
       (filter (\<lambda>r. indent r \<le> 2 \<and> embedding r = None \<and> htsno r \<noteq> None) rows))) \<noteq> []"
    by (metis (no_types, lifting) length_sort length_0_conv remdups_eq_nil_iff map_is_Nil_conv)
  then have b: "select_batch BATCH_SIZE rows \<noteq> []"
    unfolding select_batch_def BATCH_SIZE_def by simp
  have "batches env (count_needing rows) ?s = None"
  proof (rule ccontr)
    assume "batches env (count_needing rows) ?s \<noteq> None"
    then obtain y where "batches env (count_needing rows) ?s = Some y" by auto
    from batches_never_returns [OF this hf db] c b show False by simp
  qed
  then show ?thesis using db by (simp add: generateEmbeddings_def)
qed

section \<open>The route: validation, empty retrieval and failures\<close>

lemma trim_empty_iff: "trim s = [] \<longleftrightarrow> (\<forall>c\<in>set s. is_white_space c)"
proof
  assume "trim s = []"
  then have a: "\<forall>x\<in>set (dropWhile is_white_space s). is_white_space x"
    by (simp add: trim_def dropWhile_eq_Nil_conv)
  have "dropWhile is_white_space s = []"
  proof (rule ccontr)
    assume n: "dropWhile is_white_space s \<noteq> []"
    then have "\<not> is_white_space (hd (dropWhile is_white_space s))"
      by (rule hd_dropWhile)
    moreover have "hd (dropWhile is_white_space s) \<in> set (dropWhile is_white_space s)"
      using n by simp
    ultimately show False using a by blast
  qed
  then show "\<forall>c\<in>set s. is_white_space c"
    by (simp add: dropWhile_eq_Nil_conv)
next
  assume "\<forall>c\<in>set s. is_white_space c"
  then have d: "dropWhile is_white_space s = []"
    by (simp add: dropWhile_eq_Nil_conv)
  show "trim s = []"
    by (simp add: trim_def d)
qed

text \<open>
  Claim C3. A request whose description is absent, \<open>null\<close>, empty or made of white space
  only is answered with status 400, and no call to the embedding service, the store or
  the language model is made.
\<close>

theorem blank_description_is_rejected_before_any_call:
  assumes "product_description req = Undefined \<or> product_description req = Null \<or>
           (\<exists>s. product_description req = JString s \<and> (\<forall>c\<in>set s. is_white_space c))"
  shows "router_post env req =
           (Sent 400 (ErrorOnly (utf16 ''product_description is required'')), [])"
  using assms
  by (auto simp: router_post_def product_description_required_def trim_empty_iff)

lemma retrieve_calls:
  "set (snd (retrieveHTSCodes env pd k)) \<subseteq>
     {EmbeddingCall (utf16 ''Product: '' @ pd), StoreQuery}"
  by (auto simp: retrieveHTSCodes_def split: sum.splits)

text \<open>
  Claim C4. When retrieval returns no candidate, the answer is the 404 outcome
  \<open>no_candidates_found\<close>, and neither the classifier nor the justification chain is
  called.
\<close>

theorem no_candidates_is_terminal:
  assumes "product_description req = JString pd" and "trim pd \<noteq> []"
      and "retrieveHTSCodes env pd 5 = (Inr [], calls)"
  shows "router_post env req =
           (Sent 404 (ErrorMessage (utf16 ''no_candidates_found'')
                        (utf16 ''No HTS codes found in database'')), calls) \<and>
         ClassifierCall \<notin> set calls \<and> JustificationCall \<notin> set calls"
proof -
  have "set calls \<subseteq> {EmbeddingCall (utf16 ''Product: '' @ pd), StoreQuery}"
    using retrieve_calls [of env pd 5] assms(3) by simp
  then have "ClassifierCall \<notin> set calls \<and> JustificationCall \<notin> set calls"
    by auto
  then show ?thesis
    using assms by (simp add: router_post_def classify_def)
qed

text \<open>
  Claim C5. When retrieval, classification or justification raises an error, the answer
  is status 500 with \<open>classification_failed\<close> and the error's message; and a success
  bundle is only ever sent when all three stages returned, so it always carries the
  justification that belongs to its classification.
\<close>

theorem stage_error_gives_generic_failure:
  assumes "product_description req = JString pd" and "trim pd \<noteq> []"
  shows "(\<forall>e. fst (retrieveHTSCodes env pd 5) = Inl e \<longrightarrow>
            fst (router_post env req) =
              Sent 500 (ErrorDetails (utf16 ''classification_failed'') (message e))) \<and>
         (\<forall>cands e. fst (retrieveHTSCodes env pd 5) = Inr cands \<and> cands \<noteq> [] \<and>
            classificationChain env
              (classification_input_of pd (country_or_default (country_of_origin req)) cands)
              = Inl e \<longrightarrow>
            fst (router_post env req) =
              Sent 500 (ErrorDetails (utf16 ''classification_failed'') (message e))) \<and>
         (\<forall>cands c e. fst (retrieveHTSCodes env pd 5) = Inr cands \<and> cands \<noteq> [] \<and>
            classificationChain env
              (classification_input_of pd (country_or_default (country_of_origin req)) cands)
              = Inr c \<and>
            justificationChain env (justification_input_of pd c) = Inl e \<longrightarrow>
            fst (router_post env req) =
              Sent 500 (ErrorDetails (utf16 ''classification_failed'') (message e))) \<and>
         (\<forall>st b. fst (router_post env req) = Sent st (Bundle b) \<longrightarrow>
            (\<exists>cands c j. fst (retrieveHTSCodes env pd 5) = Inr cands \<and>
               classificationChain env
                 (classification_input_of pd (country_or_default (country_of_origin req)) cands)
                 = Inr c \<and>
               justificationChain env (justification_input_of pd c) = Inr j \<and>
               b = make_bundle c j cands \<and> b_justification b = j))"
  using assms
  by (auto simp: router_post_def classify_def classification_failed_def make_bundle_def
           split: prod.splits sum.splits if_splits)

lemma success_stages:
  assumes "fst (router_post env req) = Sent st (Bundle b)"
  shows "\<exists>pd cands c j. product_description req = JString pd \<and> trim pd \<noteq> [] \<and>
           fst (retrieveHTSCodes env pd 5) = Inr cands \<and> cands \<noteq> [] \<and>
           classificationChain env
             (classification_input_of pd (country_or_default (country_of_origin req)) cands)
             = Inr c \<and>
           justificationChain env (justification_input_of pd c) = Inr j \<and>
           st = 200 \<and> b = make_bundle c j cands"
  using assms
  by (auto simp: router_post_def classify_def classification_failed_def
           product_description_required_def
           split: prod.splits sum.splits if_splits js_value.splits)

text \<open>
  Claim C2, as the code has it. The selected code and the alternatives of a success
  response are the ones the classification chain returned, unchanged, and the reported
  candidates are the retrieved ones; so they belong to the candidate set whenever the
  chain's answer chose among the candidates. The route itself does not check that.
\<close>

theorem response_codes_are_the_models_choice:
  assumes "fst (router_post env req) = Sent st (Bundle b)"
  shows "\<exists>pd cands c. product_description req = JString pd \<and>
           fst (retrieveHTSCodes env pd 5) = Inr cands \<and>
           classificationChain env
             (classification_input_of pd (country_or_default (country_of_origin req)) cands)
             = Inr c \<and>
           b_hts_code b = hts_code c \<and>
           b_alternatives_considered b = alternative_codes c \<and>
           map rc_code (b_retrieved_candidates b) = map code cands \<and>
           (hts_code c \<in> set (map code cands) \<and>
            set (alternative_codes c) \<subseteq> set (map code cands) \<longrightarrow>
              b_hts_code b \<in> set (map rc_code (b_retrieved_candidates b)) \<and>
              set (b_alternatives_considered b) \<subseteq> set (map rc_code (b_retrieved_candidates b)))"
proof -
  from success_stages [OF assms] obtain pd cands c j where
    h: "product_description req = JString pd"
       "fst (retrieveHTSCodes env pd 5) = Inr cands"
       "classificationChain env
          (classification_input_of pd (country_or_default (country_of_origin req)) cands) = Inr c"
       "b = make_bundle c j cands"
    by blast
  have m: "map rc_code (b_retrieved_candidates b) = map code cands"
    using h(4) by (simp add: make_bundle_def o_def)
  have "b_hts_code b = hts_code c" "b_alternatives_considered b = alternative_codes c"
    using h(4) by (simp_all add: make_bundle_def)
  with h m show ?thesis by (intro exI [of _ pd] exI [of _ cands] exI [of _ c]) simp
qed

section \<open>Retrieval: order, bound and eligibility\<close>

lemma retrieve_Inr:
  assumes "fst (retrieveHTSCodes env pd k) = Inr cands"
  shows "\<exists>q. 0 \<le> k \<and>
           cands = map (\<lambda>r. \<lparr>code = the (htsno r), description = descript r,
                              cand_general = general r, cand_special = special r,
                              cand_indent = indent r,
                              similarity =
                                one_minus (cosine_distance (the (embedding r)) q)\<rparr>)
                 (take (nat k)
                   (sort_key
                     (\<lambda>r. (order_key (cosine_distance (the (embedding r)) q), - indent r))
                     (filter (\<lambda>r. indent r \<le> 2 \<and> embedding r \<noteq> None \<and> htsno r \<noteq> None)
                        (tariff_codes env))))"
  using assms
  by (auto simp: retrieveHTSCodes_def pool_query_def split: sum.splits option.splits if_splits)



section \<open>Similarity percentages\<close>

lemma dot_Nil [simp]: "dot [] b = 0" "dot a [] = 0"
  by (simp_all add: dot_def)

lemma dot_Cons [simp]: "dot (x # a) (y # b) = x * y + dot a b"
  by (simp add: dot_def)

lemma dot_self_nonneg: "0 \<le> dot a a"
  by (induction a) simp_all

lemma cauchy_step:
  fixes x y S A B :: real
  assumes S: "S\<^sup>2 \<le> A * B" and A: "0 \<le> A" and B: "0 \<le> B"
  shows "2 * (x * y * S) \<le> x\<^sup>2 * B + y\<^sup>2 * A"
proof (cases "B = 0")
  case True
  with S have "S = 0" by simp
  with True A show ?thesis by simp
next
  case False
  with B have Bpos: "0 < B" by simp
  have "y\<^sup>2 * S\<^sup>2 \<le> y\<^sup>2 * (A * B)"
    using S by (intro mult_left_mono) simp_all
  moreover have "0 \<le> (x * B - y * S)\<^sup>2" by simp
  ultimately have "0 \<le> B * (x\<^sup>2 * B + y\<^sup>2 * A - 2 * (x * y * S))"
    by (simp add: power2_eq_square algebra_simps)
  with Bpos have "0 \<le> x\<^sup>2 * B + y\<^sup>2 * A - 2 * (x * y * S)"
    by (simp add: zero_le_mult_iff)
  then show ?thesis by simp
qed

lemma cauchy_schwarz: "(dot a b)\<^sup>2 \<le> dot a a * dot b b"
proof (induction a arbitrary: b)
  case Nil
  show ?case by simp
next
  case (Cons x a)
  show ?case
  proof (cases b)
    case Nil
    then show ?thesis by simp
  next
    case (Cons y b')
    have "2 * (x * y * dot a b') \<le> x\<^sup>2 * dot b' b' + y\<^sup>2 * dot a a"
      by (rule cauchy_step [OF Cons.IH dot_self_nonneg dot_self_nonneg])
    with Cons.IH [of b'] show ?thesis
      unfolding Cons by (simp add: power2_eq_square algebra_simps)
  qed
qed

lemma cosine_distance_range:
  "cosine_distance a b = NaN \<or> (\<exists>d. cosine_distance a b = Num d \<and> 0 \<le> d \<and> d \<le> 2)"
proof -
  define n where "n = sqrt (dot a a * dot b b)"
  have n: "0 \<le> n" by (simp add: n_def dot_self_nonneg)
  have "\<bar>dot a b\<bar> = sqrt ((dot a b)\<^sup>2)" by simp
  also have "\<dots> \<le> n"
    unfolding n_def using cauchy_schwarz [of a b] by (rule real_sqrt_le_mono)
  finally have le: "\<bar>dot a b\<bar> \<le> n" .
  show ?thesis
  proof (cases "n = 0")
    case True
    then show ?thesis by (simp add: cosine_distance_def n_def)
  next
    case False
    with n have "0 < n" by simp
    with le have "\<bar>dot a b / n\<bar> \<le> 1" by simp
    then have "0 \<le> 1 - dot a b / n \<and> 1 - dot a b / n \<le> 2" by linarith
    moreover have "cosine_distance a b = Num (1 - dot a b / n)"
      using False by (simp add: cosine_distance_def n_def)
    ultimately show ?thesis by blast
  qed
qed

lemma similarity_range:
  "one_minus (cosine_distance a b) = NaN \<or>
   (\<exists>x. one_minus (cosine_distance a b) = Num x \<and> \<bar>x\<bar> \<le> 1)"
  using cosine_distance_range [of a b] by (auto simp: one_minus_def abs_le_iff)

lemma round_even_le:
  assumes "x \<le> of_int k"
  shows "round_even x \<le> k"
proof (cases "x = of_int k")
  case True
  then show ?thesis by (simp add: round_even_def)
next
  case False
  with assms have "x < of_int k" by simp
  then have "\<lfloor>x\<rfloor> < k" by (simp add: floor_less_iff)
  then have "\<lfloor>x\<rfloor> + 1 \<le> k" by simp
  then show ?thesis by (simp add: round_even_def)
qed

lemma round_even_ge:
  assumes "of_int k \<le> x"
  shows "k \<le> round_even x"
proof -
  from assms have "k \<le> \<lfloor>x\<rfloor>" by (simp add: le_floor_iff)
  then show ?thesis by (simp add: round_even_def)
qed

lemma round_even_of_int: "round_even (of_int k) = k"
  by (simp add: round_even_def)

lemma ulp_pos: "0 < ulp x"
  by (simp add: ulp_def)

lemma ulp_divides_100:
  assumes "x \<noteq> 0" and "\<bar>x\<bar> \<le> 100"
  shows "\<exists>K::int. of_int K * ulp x = 100"
proof -
  define e where "e = \<lfloor>log 2 \<bar>x\<bar>\<rfloor>"
  have pos: "0 < \<bar>x\<bar>" using assms by simp
  have "\<bar>x\<bar> < 2 powr 7" using assms by simp
  then have "log 2 \<bar>x\<bar> < 7" using pos by (simp add: log_less_iff)
  then have "e < 7" unfolding e_def by (simp add: floor_less_iff)
  then have e: "e \<le> 52" by simp
  define n where "n = nat (52 - e)"
  have "of_int e - 52 = - real n" using e by (simp add: n_def)
  then have u: "ulp x = inverse (2 ^ n)"
    unfolding ulp_def e_def [symmetric] by (simp add: powr_minus powr_realpow)
  have "of_int (100 * 2 ^ n) * ulp x = 100"
    by (simp add: u)
  then show ?thesis by blast
qed

lemma to_double_bound:
  assumes "\<bar>x\<bar> \<le> 100"
  shows "\<bar>to_double x\<bar> \<le> 100"
proof (cases "x = 0")
  case True
  then show ?thesis by (simp add: to_double_def)
next
  case False
  from ulp_divides_100 [OF False assms] obtain K :: int where K: "of_int K * ulp x = 100"
    by blast
  have u: "0 < ulp x" by (rule ulp_pos)
  have "x \<le> of_int K * ulp x" "of_int (- K) * ulp x \<le> x"
    using assms K by simp_all
  then have "x / ulp x \<le> of_int K" "of_int (- K) \<le> x / ulp x"
    using u by (simp_all add: pos_divide_le_eq pos_le_divide_eq)
  then have "round_even (x / ulp x) \<le> K" "- K \<le> round_even (x / ulp x)"
    by (simp_all add: round_even_le round_even_ge)
  then have "(of_int (round_even (x / ulp x)) :: real) \<le> of_int K"
            "(of_int (- K) :: real) \<le> of_int (round_even (x / ulp x))"
    by (simp_all only: of_int_le_iff)
  then have "of_int (round_even (x / ulp x)) * ulp x \<le> of_int K * ulp x"
            "of_int (- K) * ulp x \<le> of_int (round_even (x / ulp x)) * ulp x"
    using u by (simp_all only: mult_le_cancel_right_pos)
  with K False show ?thesis
    by (simp add: to_double_def abs_le_iff)
qed

lemma to_double_exact:
  assumes "x = 100 \<or> x = - 100 \<or> x = 0"
  shows "to_double x = x"
proof (cases "x = 0")
  case True
  then show ?thesis by (simp add: to_double_def)
next
  case False
  have a: "\<bar>x\<bar> \<le> 100" using assms by auto
  from ulp_divides_100 [OF False a] obtain K :: int where K: "of_int K * ulp x = 100"
    by blast
  have u: "0 < ulp x" by (rule ulp_pos)
  from K u have d: "100 / ulp x = of_int K" by (simp add: field_simps)
  show ?thesis
  proof (cases "x = 100")
    case True
    then have "x / ulp x = of_int K" using d by simp
    then have "round_even (x / ulp x) = K" by (simp only: round_even_of_int)
    then show ?thesis using K True \<open>x \<noteq> 0\<close> by (simp add: to_double_def)
  next
    case False
    with assms \<open>x \<noteq> 0\<close> have x: "x = - 100" by simp
    have "x / ulp x = of_int (- K)" using d by (simp add: x)
    then have "round_even (x / ulp x) = - K" by (simp only: round_even_of_int)
    then show ?thesis using K x \<open>x \<noteq> 0\<close> by (simp add: to_double_def)
  qed
qed

lemma toFixed1_cases:
  "toFixed1 x = (if x < 0 then - (of_int \<lfloor>\<bar>x\<bar> * 10 + 1 / 2\<rfloor> / 10)
                 else of_int \<lfloor>\<bar>x\<bar> * 10 + 1 / 2\<rfloor> / 10)"
  by (simp add: toFixed1_def sgn_if)

lemma toFixed1_tenths: "\<exists>n::int. toFixed1 x = of_int n / 10"
proof (cases "x < 0")
  case True
  then have "toFixed1 x = of_int (- \<lfloor>\<bar>x\<bar> * 10 + 1 / 2\<rfloor>) / 10"
    by (simp add: toFixed1_cases)
  then show ?thesis by blast
next
  case False
  then have "toFixed1 x = of_int \<lfloor>\<bar>x\<bar> * 10 + 1 / 2\<rfloor> / 10"
    by (simp add: toFixed1_cases)
  then show ?thesis by blast
qed

lemma toFixed1_near: "\<bar>toFixed1 x - x\<bar> \<le> 1 / 20"
proof -
  define m where "m = \<bar>x\<bar>"
  define n where "n = \<lfloor>m * 10 + 1 / 2\<rfloor>"
  have a: "of_int n \<le> m * 10 + 1 / 2" and b: "m * 10 + 1 / 2 < of_int n + 1"
    unfolding n_def by linarith+
  have t: "toFixed1 x = (if x < 0 then - (of_int n / 10) else of_int n / 10)"
    by (simp only: toFixed1_cases n_def m_def)
  show ?thesis
  proof (cases "x < 0")
    case True
    then have "m = - x" "toFixed1 x = - (of_int n / 10)" by (simp_all add: m_def t)
    with a b show ?thesis by linarith
  next
    case False
    then have "m = x" "toFixed1 x = of_int n / 10" by (simp_all add: m_def t)
    with a b show ?thesis by linarith
  qed
qed

lemma toFixed1_bound:
  assumes "\<bar>x\<bar> \<le> 100"
  shows "- 100 \<le> toFixed1 x \<and> toFixed1 x \<le> 100"
proof -
  define m where "m = \<bar>x\<bar>"
  define n where "n = \<lfloor>m * 10 + 1 / 2\<rfloor>"
  have m: "0 \<le> m" "m \<le> 100" using assms by (simp_all add: m_def)
  have "n < 1001" unfolding n_def using m by (simp add: floor_less_iff)
  then have u: "(of_int n :: real) \<le> 1000" by simp
  have "0 \<le> n" unfolding n_def using m by (simp add: zero_le_floor)
  then have l: "(0::real) \<le> of_int n" by simp
  have t: "toFixed1 x = (if x < 0 then - (of_int n / 10) else of_int n / 10)"
    by (simp only: toFixed1_cases n_def m_def)
  from u l show ?thesis
    unfolding t by simp
qed

lemma percent1_range:
  assumes "s = NaN \<or> (\<exists>x. s = Num x \<and> \<bar>x\<bar> \<le> 1)"
  shows "(s = NaN \<and> percent1 s = NaN) \<or>
         (\<exists>x p n. s = Num x \<and> percent1 s = Num p \<and> p = of_int n / 10 \<and>
            \<bar>p - to_double (x * 100)\<bar> \<le> 1 / 20 \<and> - 100 \<le> p \<and> p \<le> 100)"
proof (cases s)
  case NaN
  then show ?thesis by (simp add: percent1_def)
next
  case (Num x)
  with assms have "\<bar>x\<bar> \<le> 1" by simp
  then have "\<bar>x * 100\<bar> \<le> 100" by (simp add: abs_mult)
  then have b: "\<bar>to_double (x * 100)\<bar> \<le> 100" by (rule to_double_bound)
  obtain n :: int where n: "toFixed1 (to_double (x * 100)) = of_int n / 10"
    using toFixed1_tenths by blast
  have "percent1 s = Num (toFixed1 (to_double (x * 100)))"
    by (simp add: Num percent1_def)
  with Num n toFixed1_near [of "to_double (x * 100)"] toFixed1_bound [OF b]
  show ?thesis by simp
qed

text \<open>
  Claim C6, as the code has it. In a success bundle each reported similarity is either
  \<open>NaN\<close> (sent as \<open>null\<close>), when the candidate's similarity is, or the candidate's
  similarity times 100, as the double the route computes, rounded to one decimal place:
  a whole number of tenths, within one twentieth of that double, and between -100 and
  100. (A candidate whose embedding points away from the query has a negative cosine
  similarity, and nothing in retrieval or in the route clamps it.)
\<close>

theorem reported_similarity_is_a_rounded_percentage:
  assumes "fst (router_post env req) = Sent st (Bundle b)"
  shows "\<exists>pd cands. product_description req = JString pd \<and>
           fst (retrieveHTSCodes env pd 5) = Inr cands \<and>
           length (b_retrieved_candidates b) = length cands \<and>
           (\<forall>i < length cands.
              (similarity (cands ! i) = NaN \<and>
               rc_similarity (b_retrieved_candidates b ! i) = NaN) \<or>
              (\<exists>x p n. similarity (cands ! i) = Num x \<and>
                 rc_similarity (b_retrieved_candidates b ! i) = Num p \<and>
                 p = of_int n / 10 \<and> \<bar>p - to_double (x * 100)\<bar> \<le> 1 / 20 \<and>
                 - 100 \<le> p \<and> p \<le> 100))"
proof -
  from success_stages [OF assms] obtain pd cands c j where
    h: "product_description req = JString pd"
       "fst (retrieveHTSCodes env pd 5) = Inr cands"
       "b = make_bundle c j cands"
    by blast
  from retrieve_Inr [OF h(2)] obtain q where
    c: "cands = map (\<lambda>r. \<lparr>code = the (htsno r), description = descript r,
                              cand_general = general r, cand_special = special r,
                              cand_indent = indent r,
                              similarity =
                                one_minus (cosine_distance (the (embedding r)) q)\<rparr>)
                 (take (nat 5)
                   (sort_key
                     (\<lambda>r. (order_key (cosine_distance (the (embedding r)) q), - indent r))
                     (filter (\<lambda>r. indent r \<le> 2 \<and> embedding r \<noteq> None \<and> htsno r \<noteq> None)
                        (tariff_codes env))))"
    by blast
  have sim: "similarity (cands ! i) = NaN \<or>
             (\<exists>x. similarity (cands ! i) = Num x \<and> \<bar>x\<bar> \<le> 1)" if "i < length cands" for i
  proof -
    from that c obtain v where "similarity (cands ! i) = one_minus (cosine_distance v q)"
      by (auto simp del: take_map)
    with similarity_range [of v q] show ?thesis by simp
  qed
  have r: "rc_similarity (b_retrieved_candidates b ! i) = percent1 (similarity (cands ! i))"
    if "i < length cands" for i
    using that by (simp add: h(3) make_bundle_def)
  have "length (b_retrieved_candidates b) = length cands"
    by (simp add: h(3) make_bundle_def)
  moreover have "\<forall>i < length cands.
              (similarity (cands ! i) = NaN \<and>
               rc_similarity (b_retrieved_candidates b ! i) = NaN) \<or>
              (\<exists>x p n. similarity (cands ! i) = Num x \<and>
                 rc_similarity (b_retrieved_candidates b ! i) = Num p \<and>
                 p = of_int n / 10 \<and> \<bar>p - to_double (x * 100)\<bar> \<le> 1 / 20 \<and>
                 - 100 \<le> p \<and> p \<le> 100)"
    using percent1_range [OF sim] by (simp add: r)
  ultimately show ?thesis using h(1,2) by blast
qed

section \<open>The examples, run\<close>

lemma ex_batch:
  "select_batch BATCH_SIZE ex_pending =
     [(utf16 ''0101'', utf16 ''Live horses'', 1), (utf16 ''0201'', utf16 ''Meat of bovine animals'', 1)]"
  by (simp add: select_batch_def BATCH_SIZE_def ex_pending_def ex_row_def utf16_def)

theorem row_failure_never_aborts_batch_witness:
  "process_rows job_flaky 2
     [(utf16 ''0101'', utf16 ''Live horses'', 1),
      (utf16 ''0201'', utf16 ''Meat of bovine animals'', 1)] ex_job_state =
   process_rows job_flaky 2 [(utf16 ''0201'', utf16 ''Meat of bovine animals'', 1)]
     (ex_job_state\<lparr>hf_calls := 1,
                    console := [LogRowFailed (utf16 ''Service Unavailable'')]\<rparr>) \<and>
   hf_calls (process_rows job_flaky 2 (select_batch BATCH_SIZE ex_pending) ex_job_state) = 2 \<and>
   processed (process_rows job_flaky 2 (select_batch BATCH_SIZE ex_pending) ex_job_state) +
   failures (console (process_rows job_flaky 2 (select_batch BATCH_SIZE ex_pending) ex_job_state))
     = 2"
proof -
  have f: "hf_featureExtraction job_flaky (hf_calls ex_job_state)
             (textToEmbed (utf16 ''0101'', utf16 ''Live horses'', 1))
           = Inl (Error (utf16 ''Service Unavailable''))"
    by (simp add: job_flaky_def ex_job_state_def)
  have s: "ex_job_state\<lparr>hf_calls := hf_calls ex_job_state + 1,
             console := console ex_job_state @
               [LogRowFailed (message (Error (utf16 ''Service Unavailable'')))]\<rparr>
           = ex_job_state\<lparr>hf_calls := 1,
               console := [LogRowFailed (utf16 ''Service Unavailable'')]\<rparr>"
    by (simp add: ex_job_state_def)
  have c: "hf_calls ex_job_state = 0" "processed ex_job_state = 0"
          "failures (console ex_job_state) = 0"
    by (simp_all add: ex_job_state_def failures_def)
  have len: "length (select_batch BATCH_SIZE ex_pending) = 2"
    by (simp add: ex_batch)
  note t = row_failure_never_aborts_batch
         [of job_flaky ex_job_state "(utf16 ''0101'', utf16 ''Live horses'', 1)" 2
             "[(utf16 ''0201'', utf16 ''Meat of bovine animals'', 1)]"
             "select_batch BATCH_SIZE ex_pending"]
  from t f have
    "process_rows job_flaky 2
       [(utf16 ''0101'', utf16 ''Live horses'', 1),
        (utf16 ''0201'', utf16 ''Meat of bovine animals'', 1)] ex_job_state =
     process_rows job_flaky 2 [(utf16 ''0201'', utf16 ''Meat of bovine animals'', 1)]
       (ex_job_state\<lparr>hf_calls := hf_calls ex_job_state + 1,
             console := console ex_job_state @
               [LogRowFailed (message (Error (utf16 ''Service Unavailable'')))]\<rparr>)"
    by blast
  then have 1: "process_rows job_flaky 2
       [(utf16 ''0101'', utf16 ''Live horses'', 1),
        (utf16 ''0201'', utf16 ''Meat of bovine animals'', 1)] ex_job_state =
     process_rows job_flaky 2 [(utf16 ''0201'', utf16 ''Meat of bovine animals'', 1)]
       (ex_job_state\<lparr>hf_calls := 1,
                      console := [LogRowFailed (utf16 ''Service Unavailable'')]\<rparr>)"
    unfolding s .
  from t have
    "hf_calls (process_rows job_flaky 2 (select_batch BATCH_SIZE ex_pending) ex_job_state)
       = hf_calls ex_job_state + length (select_batch BATCH_SIZE ex_pending)"
    "processed (process_rows job_flaky 2 (select_batch BATCH_SIZE ex_pending) ex_job_state) +
     failures (console (process_rows job_flaky 2 (select_batch BATCH_SIZE ex_pending) ex_job_state))
       = processed ex_job_state + failures (console ex_job_state) +
         length (select_batch BATCH_SIZE ex_pending)"
    by blast+
  then have 2:
    "hf_calls (process_rows job_flaky 2 (select_batch BATCH_SIZE ex_pending) ex_job_state) = 2"
    "processed (process_rows job_flaky 2 (select_batch BATCH_SIZE ex_pending) ex_job_state) +
     failures (console (process_rows job_flaky 2 (select_batch BATCH_SIZE ex_pending) ex_job_state))
       = 2"
    unfolding c len by simp_all
  from 1 2 show ?thesis by blast
qed

theorem update_reaches_every_row_of_the_code_witness:
  "table (process_row job_up 2 (utf16 ''0101'', utf16 ''Live horses'', 1) ex_job_state) ! 1 =
     ex_row ''0101'' ''Other'' 3 (Some [1, 0]) \<and>
   table (process_row job_up 2 (utf16 ''0101'', utf16 ''Live horses'', 1) ex_job_state) ! 2 =
     ex_row ''0201'' ''Meat of bovine animals'' 1 None"
  using update_reaches_every_row_of_the_code
          [of job_up ex_job_state "(utf16 ''0101'', utf16 ''Live horses'', 1)" "Flat [1, 0]" 2]
  by (simp add: job_up_def ex_job_state_def ex_pending_def ex_row_def utf16_def)

theorem rerun_on_embedded_store_is_noop_witness:
  "\<exists>s. generateEmbeddings job_up ex_embedded = Some s \<and> hf_calls s = 0 \<and> updates s = 0 \<and>
       table s = ex_embedded"
  by (rule rerun_on_embedded_store_is_noop)
     (simp add: ex_embedded_def ex_row_def ex_uncoded_def)

theorem blank_description_is_rejected_before_any_call_witness:
  "router_post ex_services
     \<lparr>product_description = JString [0x20, 0x09, 0xA0], country_of_origin = Undefined\<rparr> =
     (Sent 400 (ErrorOnly (utf16 ''product_description is required'')), [])"
  by (rule blank_description_is_rejected_before_any_call)
     (simp add: is_white_space_def)

lemma ex_trim: "trim (utf16 ''stainless steel kitchen sink'') \<noteq> []"
  by (simp add: trim_empty_iff utf16_def is_white_space_def)

lemma ex_distances:
  "cosine_distance [1, 0] [1, 0] = Num 0" "cosine_distance [2, 0] [1, 0] = Num 0"
  "cosine_distance [0, 1] [1, 0] = Num 1" "cosine_distance [- 1, 0] [1, 0] = Num 2"
  "cosine_distance [0, 0] [1, 0] = NaN"
  by (simp_all add: cosine_distance_def)

lemma ex_retrieval:
  assumes "featureExtraction env = (\<lambda>t. Inr (Flat [1, 0]))" and "tariff_codes env = ex_store"
      and "query_error env = None"
  shows "retrieveHTSCodes env pd 5 =
           (Inr ex_candidates, [EmbeddingCall (utf16 ''Product: '' @ pd), StoreQuery])"
  using assms
  by (simp add: retrieveHTSCodes_def pool_query_def ex_store_def ex_row_def ex_uncoded_def
        ex_candidates_def ex_candidate_def ex_distances order_key_def one_minus_def)

theorem no_candidates_is_terminal_witness:
  "router_post ex_services_empty ex_request =
     (Sent 404 (ErrorMessage (utf16 ''no_candidates_found'')
                  (utf16 ''No HTS codes found in database'')),
      [EmbeddingCall (utf16 ''Product: stainless steel kitchen sink''), StoreQuery]) \<and>
   ClassifierCall \<notin> set [EmbeddingCall (utf16 ''Product: stainless steel kitchen sink''), StoreQuery]"
  using no_candidates_is_terminal
          [of ex_request "utf16 ''stainless steel kitchen sink''" ex_services_empty
              "[EmbeddingCall (utf16 ''Product: stainless steel kitchen sink''), StoreQuery]"]
        ex_trim
  by (simp add: ex_request_def ex_services_empty_def ex_services_def retrieveHTSCodes_def
        pool_query_def utf16_def)

lemma ex_services_fields:
  "featureExtraction ex_services = (\<lambda>t. Inr (Flat [1, 0]))"
  "tariff_codes ex_services = ex_store"
  "query_error ex_services = None"
  "classificationChain ex_services = (\<lambda>i. Inr ex_classification)"
  "justificationChain ex_services = (\<lambda>i. Inr ex_justification)"
  by (simp_all add: ex_services_def)

lemma ex_retrieval_services:
  "retrieveHTSCodes ex_services pd 5 =
     (Inr ex_candidates, [EmbeddingCall (utf16 ''Product: '' @ pd), StoreQuery])"
  by (rule ex_retrieval) (simp_all add: ex_services_fields)

lemma ex_candidates_length: "length ex_candidates = 4"
  by (simp add: ex_candidates_def)

lemma ex_query_text:
  "utf16 ''Product: '' @ utf16 ''stainless steel kitchen sink'' =
     utf16 ''Product: stainless steel kitchen sink''"
  by (simp add: utf16_def)

lemma ex_route:
  "router_post ex_services ex_request =
     (Sent 200 (Bundle ex_bundle),
      [EmbeddingCall (utf16 ''Product: stainless steel kitchen sink''), StoreQuery,
       ClassifierCall, JustificationCall])"
  by (simp add: router_post_def classify_def ex_request_def ex_trim ex_retrieval_services
        ex_candidates_length ex_services_fields ex_bundle_def ex_query_text
        country_or_default_def)



theorem stage_error_gives_generic_failure_witness:
  "fst (router_post ex_services_llm_down ex_request) =
     Sent 500 (ErrorDetails (utf16 ''classification_failed'') (utf16 ''429 Too Many Requests''))"
proof -
  have "retrieveHTSCodes ex_services_llm_down (utf16 ''stainless steel kitchen sink'') 5
          = (Inr ex_candidates,
             [EmbeddingCall (utf16 ''Product: '' @ utf16 ''stainless steel kitchen sink''),
              StoreQuery])"
    by (rule ex_retrieval) (simp_all add: ex_services_llm_down_def ex_services_fields)
  then have r: "fst (retrieveHTSCodes ex_services_llm_down
                       (utf16 ''stainless steel kitchen sink'') 5) = Inr ex_candidates"
    by simp
  have n: "ex_candidates \<noteq> []" by (simp add: ex_candidates_def)
  have f: "classificationChain ex_services_llm_down
             (classification_input_of (utf16 ''stainless steel kitchen sink'')
                (country_or_default (country_of_origin ex_request)) ex_candidates)
           = Inl (Error (utf16 ''429 Too Many Requests''))"
    by (simp add: ex_services_llm_down_def)
  have p: "product_description ex_request = JString (utf16 ''stainless steel kitchen sink'')"
    by (simp add: ex_request_def)
  from stage_error_gives_generic_failure [OF p ex_trim, of ex_services_llm_down] r n f
  have "fst (router_post ex_services_llm_down ex_request) =
          Sent 500 (ErrorDetails (utf16 ''classification_failed'')
                      (message (Error (utf16 ''429 Too Many Requests''))))"
    by blast
  then show ?thesis by simp
qed

text \<open>
  Against claim C2 as stated: the classification chain answers with code 9999 and the
  alternative 8888, neither of which is among the four retrieved candidates, and the
  route sends them in a success bundle.
\<close>

theorem codes_outside_the_candidates_counterexample:
  "fst (router_post ex_services ex_request) = Sent 200 (Bundle ex_bundle) \<and>
   fst (retrieveHTSCodes ex_services (utf16 ''stainless steel kitchen sink'') 5)
     = Inr ex_candidates \<and>
   b_hts_code ex_bundle = utf16 ''9999'' \<and>
   b_alternatives_considered ex_bundle = [utf16 ''8888''] \<and>
   map code ex_candidates = [utf16 ''0101.21'', utf16 ''0101'', utf16 ''0201'', utf16 ''7324''] \<and>
   b_hts_code ex_bundle \<notin> set (map code ex_candidates) \<and>
   utf16 ''8888'' \<notin> set (map code ex_candidates)"
  by (simp add: ex_route ex_retrieval_services ex_bundle_def
        make_bundle_def ex_classification_def ex_candidates_def ex_candidate_def utf16_def)

lemma ex_percents:
  "percent1 (Num 1) = Num 100" "percent1 (Num 0) = Num 0" "percent1 (Num (- 1)) = Num (- 100)"
  by (simp_all add: percent1_def to_double_exact toFixed1_def)

text \<open>
  Against claim C6 as stated: the stored vector of code 7324 is opposite to the query
  vector, its similarity is -1, and the bundle reports -100.
\<close>

theorem negative_percentage_counterexample:
  "fst (router_post ex_services ex_request) = Sent 200 (Bundle ex_bundle) \<and>
   rc_code (b_retrieved_candidates ex_bundle ! 3) = utf16 ''7324'' \<and>
   rc_similarity (b_retrieved_candidates ex_bundle ! 3) = Num (- 100)"
  by (simp add: ex_route ex_bundle_def make_bundle_def ex_candidates_def ex_candidate_def
        ex_percents)

lemma job_down_never_returns: "generateEmbeddings job_down ex_pending = None"
  by (rule job_never_ends_while_service_is_down
             [of job_down "ex_row ''0101'' ''Live horses'' 1 None"])
     (simp_all add: job_down_def ex_pending_def ex_row_def)

lemma ex_two_passes:
  "\<forall>r\<in>set (table ((loop_body job_flaky (count_needing ex_pending) ^^ 2) (loop_entry ex_pending))).
     \<not> (indent r \<le> 2 \<and> embedding r = None \<and> htsno r \<noteq> None)"
  by (simp add: numeral_2_eq_2 loop_body_def loop_entry_def count_needing_def ex_pending_def
        ex_row_def select_batch_def BATCH_SIZE_def process_row_def job_flaky_def
        update_embedding_def textToEmbed_def utf16_def)

theorem job_ends_when_no_eligible_rows_remain_witness:
  "batches job_flaky 3 ex_late_state =
     Some (Completed (ex_late_state\<lparr>batchNumber := 2, queries := 4\<rparr>)) \<and>
   (\<exists>s'. generateEmbeddings job_flaky ex_pending = Some s' \<and> pool_ended s')"
proof -
  have a: "\<forall>r\<in>set (table ex_late_state).
             \<not> (indent r \<le> 2 \<and> embedding r = None \<and> htsno r \<noteq> None)"
    by (simp add: ex_late_state_def ex_embedded_def ex_row_def ex_uncoded_def)
  have b: "\<exists>n. \<forall>r\<in>set (table ((loop_body job_flaky (count_needing ex_pending) ^^ n)
                                   (loop_entry ex_pending))).
             \<not> (indent r \<le> 2 \<and> embedding r = None \<and> htsno r \<noteq> None)"
    using ex_two_passes by blast
  from job_ends_when_no_eligible_rows_remain [of ex_late_state job_flaky 3 ex_pending] a b
  have "batches job_flaky 3 ex_late_state =
          Some (if processed ex_late_state < 3
                then (case pool_query_error job_flaky (queries ex_late_state) of
                        Some e \<Rightarrow>
                          Thrown e (ex_late_state\<lparr>batchNumber := batchNumber ex_late_state + 1,
                                                  queries := queries ex_late_state + 1\<rparr>)
                      | None \<Rightarrow>
                          Completed (ex_late_state\<lparr>batchNumber := batchNumber ex_late_state + 1,
                                                   queries := queries ex_late_state + 1\<rparr>))
                else Completed ex_late_state)"
       "\<exists>s'. generateEmbeddings job_flaky ex_pending = Some s' \<and> pool_ended s'"
    by blast+
  then show ?thesis by (simp add: ex_late_state_def job_flaky_def)
qed

lemma ex_route_faithful:
  "router_post ex_services_faithful ex_request =
     (Sent 200 (Bundle ex_bundle_faithful),
      [EmbeddingCall (utf16 ''Product: stainless steel kitchen sink''), StoreQuery,
       ClassifierCall, JustificationCall])"
proof -
  have "retrieveHTSCodes ex_services_faithful (utf16 ''stainless steel kitchen sink'') 5
          = (Inr ex_candidates,
             [EmbeddingCall (utf16 ''Product: '' @ utf16 ''stainless steel kitchen sink''),
              StoreQuery])"
    by (rule ex_retrieval) (simp_all add: ex_services_faithful_def ex_services_fields)
  then show ?thesis
    by (simp add: router_post_def classify_def ex_request_def ex_trim
          ex_candidates_length ex_services_faithful_def ex_services_fields
          ex_bundle_faithful_def ex_query_text country_or_default_def)
qed

theorem response_codes_are_the_models_choice_witness:
  "b_hts_code ex_bundle_faithful = utf16 ''7324'' \<and>
   b_hts_code ex_bundle_faithful \<in> set (map rc_code (b_retrieved_candidates ex_bundle_faithful)) \<and>
   set (b_alternatives_considered ex_bundle_faithful)
     \<subseteq> set (map rc_code (b_retrieved_candidates ex_bundle_faithful))"
proof -
  have "fst (router_post ex_services_faithful ex_request) = Sent 200 (Bundle ex_bundle_faithful)"
    by (simp add: ex_route_faithful)
  from response_codes_are_the_models_choice [OF this] obtain pd cands c where
    h: "fst (retrieveHTSCodes ex_services_faithful pd 5) = Inr cands"
       "classificationChain ex_services_faithful
          (classification_input_of pd (country_or_default (country_of_origin ex_request)) cands)
          = Inr c"
       "b_hts_code ex_bundle_faithful = hts_code c"
       "hts_code c \<in> set (map code cands) \<and>
        set (alternative_codes c) \<subseteq> set (map code cands) \<longrightarrow>
          b_hts_code ex_bundle_faithful
            \<in> set (map rc_code (b_retrieved_candidates ex_bundle_faithful)) \<and>
          set (b_alternatives_considered ex_bundle_faithful)
            \<subseteq> set (map rc_code (b_retrieved_candidates ex_bundle_faithful))"
    by blast
  have "retrieveHTSCodes ex_services_faithful pd 5
          = (Inr ex_candidates, [EmbeddingCall (utf16 ''Product: '' @ pd), StoreQuery])"
    by (rule ex_retrieval) (simp_all add: ex_services_faithful_def ex_services_fields)
  with h(1) have cands: "cands = ex_candidates" by simp
  from h(2) have c: "c = ex_faithful_classification"
    by (simp add: ex_services_faithful_def)
  have "hts_code c \<in> set (map code cands) \<and> set (alternative_codes c) \<subseteq> set (map code cands)"
    by (simp add: c cands ex_faithful_classification_def ex_classification_def
          ex_candidates_def ex_candidate_def)
  with h(4) h(3) show ?thesis
    by (simp add: c ex_faithful_classification_def)
qed

theorem reported_similarity_is_a_rounded_percentage_witness:
  "\<exists>p. rc_similarity (b_retrieved_candidates ex_bundle ! 3) = Num p \<and>
       \<bar>p - to_double (- 1 * 100)\<bar> \<le> 1 / 20 \<and> - 100 \<le> p \<and> p \<le> 100"
proof -
  have "fst (router_post ex_services ex_request) = Sent 200 (Bundle ex_bundle)"
    by (simp add: ex_route)
  from reported_similarity_is_a_rounded_percentage [OF this] obtain pd cands where
    h: "fst (retrieveHTSCodes ex_services pd 5) = Inr cands"
       "\<forall>i < length cands.
              (similarity (cands ! i) = NaN \<and>
               rc_similarity (b_retrieved_candidates ex_bundle ! i) = NaN) \<or>
              (\<exists>x p n. similarity (cands ! i) = Num x \<and>
                 rc_similarity (b_retrieved_candidates ex_bundle ! i) = Num p \<and>
                 p = of_int n / 10 \<and> \<bar>p - to_double (x * 100)\<bar> \<le> 1 / 20 \<and>
                 - 100 \<le> p \<and> p \<le> 100)"
    by blast
  from h(1) have cands: "cands = ex_candidates" by (simp add: ex_retrieval_services)
  have s: "similarity (ex_candidates ! 3) = Num (- 1)"
    by (simp add: ex_candidates_def ex_candidate_def)
  have "3 < length cands" by (simp add: cands ex_candidates_length)
  with h(2) have
    "(similarity (ex_candidates ! 3) = NaN \<and>
      rc_similarity (b_retrieved_candidates ex_bundle ! 3) = NaN) \<or>
     (\<exists>x p n. similarity (ex_candidates ! 3) = Num x \<and>
        rc_similarity (b_retrieved_candidates ex_bundle ! 3) = Num p \<and>
        p = of_int n / 10 \<and> \<bar>p - to_double (x * 100)\<bar> \<le> 1 / 20 \<and>
        - 100 \<le> p \<and> p \<le> 100)"
    unfolding cands by blast
  then show ?thesis using s by auto
qed

end
